theory Spec2Isabelle
  imports Main
begin

section \<open>Data model\<close>

text \<open>
  Modelled from the spec: the property values of package \<open>resource\<close>, whose declaration is
  not part of the translated file. A property value is a tagged union over null, bool,
  number, string, array, object and the three opaque markers computed, output and secret.
  The zero value \<open>PropertyValue{}\<close> of the source is the null value, so "absent" and null
  coincide. Numbers are payload that the translated code never inspects; they are
  carried as integers. The opaque markers carry the value they wrap, which the translated
  code never looks at.
\<close>

datatype PropertyValue =
    NullValue
  | BoolValue bool
  | NumberValue int
  | StringValue string
  | ArrayValue "PropertyValue list"
  | ObjectValue "string \<rightharpoonup> PropertyValue"
  | ComputedValue PropertyValue
  | OutputValue PropertyValue
  | SecretValue PropertyValue

type_synonym PropertyMap = "string \<rightharpoonup> PropertyValue"

fun IsNull :: "PropertyValue \<Rightarrow> bool" where
  "IsNull NullValue = True"
| "IsNull _ = False"

text \<open>
  A path element is an \<open>interface{}\<close> in the source: the parser produces an \<open>int\<close> or a
  \<open>string\<close>, and every other dynamic type is represented by \<open>OtherElem\<close>.
\<close>

datatype pathElement = IntElem int | StrElem string | OtherElem

text \<open>
  Modelled from the spec: the change kinds of package \<open>plugin\<close>. \<open>DiffKind\<close> is an integer
  type there, so a value outside the six named kinds is possible; it is \<open>DiffOther\<close>.
\<close>

datatype DiffKind =
    DiffAdd | DiffAddReplace
  | DiffDelete | DiffDeleteReplace
  | DiffUpdate | DiffUpdateReplace
  | DiffOther int

text \<open>
  Modelled from the spec: the diff structures of package \<open>resource\<close>. An array diff and an
  object diff hold the same four mappings, keyed by index and by property key; a value
  diff holds the old and the new value and optional (pointer, possibly nil) array and
  object diffs.
\<close>

datatype ('k, 'v) Diff =
  Diff (Adds: "'k \<rightharpoonup> PropertyValue") (Deletes: "'k \<rightharpoonup> PropertyValue")
       (Sames: "'k \<rightharpoonup> PropertyValue") (Updates: "'k \<rightharpoonup> 'v")

datatype ValueDiff =
  ValueDiff (Old: PropertyValue) (New: PropertyValue)
            (Array: "(int, ValueDiff) Diff option") (Object: "(string, ValueDiff) Diff option")

type_synonym ArrayDiff = "(int, ValueDiff) Diff"
type_synonym ObjectDiff = "(string, ValueDiff) Diff"

text \<open>Runtime panics and failed contracts of the source.\<close>

datatype fault =
    IndexOutOfRange
  | RequireFailed
  | AssertFailed
  | UnexpectedDiffKind
  | UnexpectedPathElementType

text \<open>The four errors \<open>parseDiffPath\<close> returns, one per message.\<close>

datatype parseError =
    MissingClosingQuote
  | MissingClosingBracketInPropertyAccess
  | MissingClosingBracketInArrayIndex
  | InvalidArrayIndex

datatype parseResult = Elements "pathElement list" | Err parseError | Panic fault

section \<open>Path parser\<close>

text \<open>
  \<open>strings.IndexRune\<close> for an ASCII rune: the index of the first occurrence of the byte, or
  \<open>None\<close> for \<open>-1\<close>.
\<close>

fun IndexRune :: "string \<Rightarrow> char \<Rightarrow> nat option" where
  "IndexRune [] r = None"
| "IndexRune (c # cs) r =
     (if c = r then Some 0
      else (case IndexRune cs r of None \<Rightarrow> None | Some i \<Rightarrow> Some (Suc i)))"

definition isDigit :: "char \<Rightarrow> bool" where
  "isDigit c = (48 \<le> (of_char c :: nat) \<and> (of_char c :: nat) \<le> 57)"

definition digitsValue :: "string \<Rightarrow> int" where
  "digitsValue ds = foldl (\<lambda>a c. 10 * a + (of_char c - 48)) 0 ds"

text \<open>
  \<open>strconv.ParseInt(s, 10, 0)\<close> of the Go library, with a 64-bit \<open>int\<close>: an optional sign,
  then at least one decimal digit; a value outside the range of \<open>int\<close> is an error, as is
  any other syntax. \<open>None\<close> is the error.
\<close>

definition ParseInt :: "string \<Rightarrow> int option" where
  "ParseInt s =
     (case s of
        [] \<Rightarrow> None
      | c # cs \<Rightarrow>
          (let neg = (c = CHR ''-'');
               ds = (if c = CHR ''+'' \<or> c = CHR ''-'' then cs else s)
           in if ds = [] then None
              else if \<not> list_all isDigit ds then None
              else (let un = digitsValue ds
                    in if \<not> neg \<and> un \<ge> 2 ^ 63 then None
                       else if neg \<and> un > 2 ^ 63 then None
                       else Some (if neg then - un else un))))"

text \<open>
  The inner loop of the quoted-key branch. The first argument is \<open>path[i:]\<close>, the second
  the key collected so far; the result is the key and the input after the closing
  quote, or \<open>None\<close> when the input ends first.
\<close>

fun scanKey :: "string \<Rightarrow> string \<Rightarrow> (string \<times> string) option" where
  "scanKey [] propertyKey = None"
| "scanKey (c # cs) propertyKey =
     (if c = CHR 0x22 then Some (propertyKey, cs)
      else if c = CHR 0x5C \<and> (case cs of [] \<Rightarrow> False | d # _ \<Rightarrow> d = CHR 0x22)
           then scanKey (tl cs) (propertyKey @ [CHR 0x22])
      else scanKey cs (propertyKey @ [c]))"

text \<open>
  The loop of the default branch: the index of the first \<open>.\<close> or \<open>[\<close>, or the length of the
  input.
\<close>

fun nameEnd :: "string \<Rightarrow> nat" where
  "nameEnd [] = 0"
| "nameEnd (c # cs) = (if c = CHR ''.'' \<or> c = CHR ''['' then 0 else Suc (nameEnd cs))"

lemma scanKey_length: "scanKey s k = Some (key, r) \<Longrightarrow> length r < length s"
proof (induction s k rule: scanKey.induct)
  case (1 propertyKey)
  then show ?case by simp
next
  case (2 c cs propertyKey)
  then show ?case
    by (cases cs) (auto split: if_splits)
qed

lemma IndexRune_less: "IndexRune s r = Some i \<Longrightarrow> i < length s"
  by (induction s arbitrary: i) (auto split: if_splits option.splits)

function parseLoop :: "pathElement list \<Rightarrow> string \<Rightarrow> parseResult" where
  "parseLoop elements path =
     (case path of
        [] \<Rightarrow> Elements elements
      | c # rest \<Rightarrow>
          if c = CHR ''.'' then parseLoop elements rest
          else if c = CHR ''['' then
            (case rest of
               [] \<Rightarrow> Panic IndexOutOfRange
             | d # after \<Rightarrow>
                 if d = CHR 0x22 then
                   (case scanKey after [] of
                      None \<Rightarrow> Err MissingClosingQuote
                    | Some (propertyKey, r) \<Rightarrow>
                        (case r of
                           [] \<Rightarrow> Err MissingClosingBracketInPropertyAccess
                         | b # r' \<Rightarrow>
                             if b \<noteq> CHR '']'' then Err MissingClosingBracketInPropertyAccess
                             else parseLoop (elements @ [StrElem propertyKey]) r'))
                 else
                   (case IndexRune path (CHR '']'') of
                      None \<Rightarrow> Err MissingClosingBracketInArrayIndex
                    | Some rbracket \<Rightarrow>
                        (case ParseInt (take (rbracket - 1) (drop 1 path)) of
                           None \<Rightarrow> Err InvalidArrayIndex
                         | Some index \<Rightarrow>
                             parseLoop (elements @ [IntElem index]) (drop (Suc rbracket) path))))
          else
            (let i = nameEnd path
             in parseLoop (elements @ [StrElem (take i path)]) (drop i path)))"
  by pat_completeness auto
termination
proof (relation "measure (\<lambda>(elements, path). length path)")
  show "wf (measure (\<lambda>(elements, path). length path))" by simp
next
  fix elements :: "pathElement list" and path :: string and c rest
  assume "path = c # rest"
  then show "((elements, rest), (elements, path)) \<in> measure (\<lambda>(elements, path). length path)"
    by simp
next
  fix elements :: "pathElement list" and path :: string and c rest d after x2 propertyKey r b r'
  assume "path = c # rest" "rest = d # after" "scanKey after [] = Some x2"
    "(propertyKey, r) = x2" "r = b # r'"
  then show "((elements @ [StrElem propertyKey], r'), (elements, path))
      \<in> measure (\<lambda>(elements, path). length path)"
    using scanKey_length [of after "[]" propertyKey r] by simp
next
  fix elements :: "pathElement list" and path :: string and rbracket index
  assume "IndexRune path (CHR '']'') = Some rbracket"
  then show "((elements @ [IntElem index], drop (Suc rbracket) path), (elements, path))
      \<in> measure (\<lambda>(elements, path). length path)"
    using IndexRune_less [of path "CHR '']''" rbracket] by simp
next
  fix elements :: "pathElement list" and path :: string and c rest i
  assume "path = c # rest" "c \<noteq> CHR ''.''" "c \<noteq> CHR ''[''" "i = nameEnd path"
  then show "((elements @ [StrElem (take i path)], drop i path), (elements, path))
      \<in> measure (\<lambda>(elements, path). length path)"
    by simp
qed

declare parseLoop.simps [simp del]

definition parseDiffPath :: "string \<Rightarrow> parseResult" where
  "parseDiffPath path = parseLoop [] path"

section \<open>Property lookup\<close>

text \<open>
  \<open>getProperty\<close> fetches the child with the given key. The cases are tried in the order of
  the source's \<open>switch\<close>; a missing key of an object yields the zero value of the map's
  value type, which is null.
\<close>

fun getProperty :: "pathElement \<Rightarrow> PropertyValue \<Rightarrow> PropertyValue" where
  "getProperty key (ArrayValue vs) =
     (case key of
        IntElem index \<Rightarrow>
          if index < 0 \<or> index \<ge> int (length vs) then NullValue else vs ! nat index
      | _ \<Rightarrow> NullValue)"
| "getProperty key (ObjectValue m) =
     (case key of
        StrElem k \<Rightarrow> (case m k of None \<Rightarrow> NullValue | Some v \<Rightarrow> v)
      | _ \<Rightarrow> NullValue)"
| "getProperty key (ComputedValue e) = ComputedValue e"
| "getProperty key (OutputValue e) = OutputValue e"
| "getProperty key (SecretValue e) = SecretValue e"
| "getProperty key _ = NullValue"

section \<open>Diff tree builder\<close>

definition emptyDiff :: "('k, 'v) Diff" where
  "emptyDiff = Diff Map.empty Map.empty Map.empty Map.empty"

text \<open>The zero value of \<open>ValueDiff\<close>, which a Go map yields for a missing key.\<close>

definition zeroValueDiff :: ValueDiff where
  "zeroValueDiff = ValueDiff NullValue NullValue None None"

text \<open>Assignments \<open>d.Adds[k] = v\<close>, \<open>d.Deletes[k] = v\<close> and \<open>d.Updates[k] = v\<close>.\<close>

definition setAdds :: "('k, 'v) Diff \<Rightarrow> 'k \<Rightarrow> PropertyValue \<Rightarrow> ('k, 'v) Diff" where
  "setAdds d k v = Diff ((Adds d)(k \<mapsto> v)) (Deletes d) (Sames d) (Updates d)"

definition setDeletes :: "('k, 'v) Diff \<Rightarrow> 'k \<Rightarrow> PropertyValue \<Rightarrow> ('k, 'v) Diff" where
  "setDeletes d k v = Diff (Adds d) ((Deletes d)(k \<mapsto> v)) (Sames d) (Updates d)"

definition setUpdates :: "('k, 'v) Diff \<Rightarrow> 'k \<Rightarrow> 'v \<Rightarrow> ('k, 'v) Diff" where
  "setUpdates d k v = Diff (Adds d) (Deletes d) (Sames d) ((Updates d)(k \<mapsto> v))"

text \<open>Assignments to \<open>parent.Array\<close> and \<open>parent.Object\<close>.\<close>

definition setArray :: "ValueDiff \<Rightarrow> ArrayDiff \<Rightarrow> ValueDiff" where
  "setArray parent a = ValueDiff (Old parent) (New parent) (Some a) (Object parent)"

definition setObject :: "ValueDiff \<Rightarrow> ObjectDiff \<Rightarrow> ValueDiff" where
  "setObject parent ob = ValueDiff (Old parent) (New parent) (Array parent) (Some ob)"

text \<open>
  The diff \<open>parent.Array\<close> points to once a nil pointer has been replaced with freshly
  made maps; likewise for \<open>parent.Object\<close>.
\<close>

definition ensureArray :: "ValueDiff \<Rightarrow> ArrayDiff" where
  "ensureArray parent = (case Array parent of None \<Rightarrow> emptyDiff | Some a \<Rightarrow> a)"

definition ensureObject :: "ValueDiff \<Rightarrow> ObjectDiff" where
  "ensureObject parent = (case Object parent of None \<Rightarrow> emptyDiff | Some ob \<Rightarrow> ob)"

text \<open>
  Reading \<open>d.Updates[k]\<close>: the stored nested diff, or the zero value for a missing key.
\<close>

definition getUpdate :: "('k, ValueDiff) Diff \<Rightarrow> 'k \<Rightarrow> ValueDiff" where
  "getUpdate d k = (case Updates d k of None \<Rightarrow> zeroValueDiff | Some ed \<Rightarrow> ed)"

text \<open>
  \<open>addDiff\<close> mutates \<open>parent\<close> in place; the model returns the updated node, or the fault
  that stops the call.
\<close>

fun addDiff ::
  "pathElement list \<Rightarrow> DiffKind \<Rightarrow> ValueDiff \<Rightarrow> PropertyValue \<Rightarrow> PropertyValue
    \<Rightarrow> fault + ValueDiff" where
  "addDiff [] kind parent oldParent newParent = Inl RequireFailed"
| "addDiff (element # rest) kind parent oldParent newParent =
     (let old = getProperty element oldParent;
          new = getProperty element newParent
      in case element of
           IntElem i \<Rightarrow>
             (let arr = ensureArray parent
              in if rest = [] then
                   (case kind of
                      DiffAdd \<Rightarrow> Inr (setArray parent (setAdds arr i new))
                    | DiffAddReplace \<Rightarrow> Inr (setArray parent (setAdds arr i new))
                    | DiffDelete \<Rightarrow> Inr (setArray parent (setDeletes arr i old))
                    | DiffDeleteReplace \<Rightarrow> Inr (setArray parent (setDeletes arr i old))
                    | DiffUpdate \<Rightarrow>
                        Inr (setArray parent (setUpdates arr i (ValueDiff old new None None)))
                    | DiffUpdateReplace \<Rightarrow>
                        Inr (setArray parent (setUpdates arr i (ValueDiff old new None None)))
                    | DiffOther _ \<Rightarrow> Inl UnexpectedDiffKind)
                 else if IsNull old \<and> \<not> IsNull new then
                   Inr (setArray parent (setAdds arr i new))
                 else if \<not> IsNull old \<and> IsNull new then
                   Inr (setArray parent (setDeletes arr i old))
                 else
                   (let ed = getUpdate arr i
                    in case addDiff rest kind ed old new of
                         Inl f \<Rightarrow> Inl f
                       | Inr ed' \<Rightarrow> Inr (setArray parent (setUpdates arr i ed'))))
         | StrElem e \<Rightarrow>
             (let obj = ensureObject parent
              in if rest = [] then
                   (case kind of
                      DiffAdd \<Rightarrow> Inr (setObject parent (setAdds obj e new))
                    | DiffAddReplace \<Rightarrow> Inr (setObject parent (setAdds obj e new))
                    | DiffDelete \<Rightarrow> Inr (setObject parent (setDeletes obj e old))
                    | DiffDeleteReplace \<Rightarrow> Inr (setObject parent (setDeletes obj e old))
                    | DiffUpdate \<Rightarrow>
                        Inr (setObject parent (setUpdates obj e (ValueDiff old new None None)))
                    | DiffUpdateReplace \<Rightarrow>
                        Inr (setObject parent (setUpdates obj e (ValueDiff old new None None)))
                    | DiffOther _ \<Rightarrow> Inl UnexpectedDiffKind)
                 else if IsNull old \<and> \<not> IsNull new then
                   Inr (setObject parent (setAdds obj e new))
                 else if \<not> IsNull old \<and> IsNull new then
                   Inr (setObject parent (setDeletes obj e old))
                 else
                   (let ed = getUpdate obj e
                    in case addDiff rest kind ed old new of
                         Inl f \<Rightarrow> Inl f
                       | Inr ed' \<Rightarrow> Inr (setObject parent (setUpdates obj e ed'))))
         | OtherElem \<Rightarrow> Inl UnexpectedPathElementType)"

section \<open>Top-level driver\<close>

text \<open>
  Modelled from the spec: the step metadata of package \<open>engine\<close> and the property diff of
  package \<open>plugin\<close>. The detailed diff is a Go map from path strings to property diffs,
  possibly nil; it is the list of its entries in the order the \<open>range\<close> loop visits them.
\<close>

record PropertyDiff =
  Kind :: DiffKind
  InputDiff :: bool

record StepEventStateMetadata =
  Inputs :: PropertyMap
  Outputs :: PropertyMap

record StepEventMetadata =
  Old_state :: StepEventStateMetadata
  New_state :: StepEventStateMetadata
  DetailedDiff :: "(string \<times> PropertyDiff) list option"

text \<open>The loop of \<open>translateDetailedDiff\<close> over the entries, threading the root diff.\<close>

fun translateLoop ::
  "StepEventMetadata \<Rightarrow> (string \<times> PropertyDiff) list \<Rightarrow> ValueDiff \<Rightarrow> fault + ValueDiff" where
  "translateLoop step [] diff = Inr diff"
| "translateLoop step ((path, pdiff) # entries) diff =
     (case parseDiffPath path of
        Err e \<Rightarrow> Inl AssertFailed
      | Panic f \<Rightarrow> Inl f
      | Elements elements \<Rightarrow>
          (let olds = (if InputDiff pdiff then ObjectValue (Inputs (Old_state step))
                       else ObjectValue (Outputs (Old_state step)))
           in case addDiff elements (Kind pdiff) diff olds
                     (ObjectValue (Inputs (New_state step))) of
                Inl f \<Rightarrow> Inl f
              | Inr diff' \<Rightarrow> translateLoop step entries diff'))"

definition translateDetailedDiff :: "StepEventMetadata \<Rightarrow> fault + ObjectDiff option" where
  "translateDetailedDiff step =
     (case DetailedDiff step of
        None \<Rightarrow> Inl AssertFailed
      | Some entries \<Rightarrow>
          (case translateLoop step entries zeroValueDiff of
             Inl f \<Rightarrow> Inl f
           | Inr diff \<Rightarrow> Inr (Object diff)))"

section \<open>The grammar of complete paths\<close>

text \<open>
  The grammar in the comment of \<open>parseDiffPath\<close>, which complete paths obey:
  \<^verbatim>\<open>propertyName := [a-zA-Z_$] { [a-zA-Z0-9_$] }\<close>,
  \<^verbatim>\<open>quotedPropertyName := '"' ( '\' '"' | [^"] ) { ( '\' '"' | [^"] ) } '"'\<close>,
  \<^verbatim>\<open>arrayIndex := { [0-9] }\<close>,
  \<^verbatim>\<open>propertyIndex := '[' ( quotedPropertyName | arrayIndex ) ']'\<close>,
  \<^verbatim>\<open>rootProperty := ( propertyName | propertyIndex )\<close>,
  \<^verbatim>\<open>propertyAccessor := ( ( '.' propertyName ) | propertyIndex )\<close>,
  \<^verbatim>\<open>path := rootProperty { propertyAccessor }\<close>.
  An accessor carries the text it matches: a name, the text between the quotes, or the
  digits. \<open>wellFormed\<close> is the grammar's condition on that text, \<open>rootProperty\<close> and
  \<open>propertyAccessor\<close> write the accessor in the two positions, and a complete path is the
  text of a root property followed by any number of accessors.
\<close>

definition isLetter :: "char \<Rightarrow> bool" where
  "isLetter c = ((65 \<le> (of_char c :: nat) \<and> (of_char c :: nat) \<le> 90)
      \<or> (97 \<le> (of_char c :: nat) \<and> (of_char c :: nat) \<le> 122))"

definition isNameStart :: "char \<Rightarrow> bool" where
  "isNameStart c = (isLetter c \<or> c = CHR ''_'' \<or> c = CHR ''$'')"

definition isNameChar :: "char \<Rightarrow> bool" where
  "isNameChar c = (isNameStart c \<or> isDigit c)"

definition propertyName :: "string \<Rightarrow> bool" where
  "propertyName s = (case s of [] \<Rightarrow> False | c # cs \<Rightarrow> isNameStart c \<and> list_all isNameChar cs)"

inductive quotedItems :: "string \<Rightarrow> bool" where
  no_items: "quotedItems []"
| escaped_quote: "quotedItems s \<Longrightarrow> quotedItems (CHR 0x5C # CHR 0x22 # s)"
| other_char: "c \<noteq> CHR 0x22 \<Longrightarrow> quotedItems s \<Longrightarrow> quotedItems (c # s)"

datatype accessor = PropertyName string | QuotedPropertyName string | ArrayIndex string

fun wellFormed :: "accessor \<Rightarrow> bool" where
  "wellFormed (PropertyName n) = propertyName n"
| "wellFormed (QuotedPropertyName b) = (b \<noteq> [] \<and> quotedItems b)"
| "wellFormed (ArrayIndex d) = list_all isDigit d"

fun rootProperty :: "accessor \<Rightarrow> string" where
  "rootProperty (PropertyName n) = n"
| "rootProperty (QuotedPropertyName b) = CHR ''['' # CHR 0x22 # b @ [CHR 0x22, CHR '']'']"
| "rootProperty (ArrayIndex d) = CHR ''['' # d @ [CHR '']'']"

fun propertyAccessor :: "accessor \<Rightarrow> string" where
  "propertyAccessor (PropertyName n) = CHR ''.'' # n"
| "propertyAccessor (QuotedPropertyName b) = rootProperty (QuotedPropertyName b)"
| "propertyAccessor (ArrayIndex d) = rootProperty (ArrayIndex d)"

definition pathText :: "accessor \<Rightarrow> accessor list \<Rightarrow> string" where
  "pathText a as = rootProperty a @ concat (map propertyAccessor as)"

definition completePath :: "string \<Rightarrow> bool" where
  "completePath s = (\<exists>a as. wellFormed a \<and> list_all wellFormed as \<and> s = pathText a as)"



section \<open>Folding records into one tree\<close>

text \<open>
  The calls of \<open>addDiff\<close> that the loop of \<open>translateDetailedDiff\<close> makes on the shared root,
  for records whose paths are already parsed: each record is a path, a kind and the old
  and new roots chosen for it. The first fault stops the fold.
\<close>

fun addDiffs ::
  "(pathElement list \<times> DiffKind \<times> PropertyValue \<times> PropertyValue) list \<Rightarrow> ValueDiff
    \<Rightarrow> fault + ValueDiff" where
  "addDiffs [] diff = Inr diff"
| "addDiffs ((path, kind, olds, news) # records) diff =
     (case addDiff path kind diff olds news of
        Inl f \<Rightarrow> Inl f
      | Inr diff' \<Rightarrow> addDiffs records diff')"

text \<open>
  The node of a diff tree at a position: the position steps through \<open>Array.Updates\<close> with
  an integer and through \<open>Object.Updates\<close> with a string. The nodes of a tree are the
  nodes at its positions.
\<close>

fun nodeAt :: "pathElement list \<Rightarrow> ValueDiff \<Rightarrow> ValueDiff option" where
  "nodeAt [] d = Some d"
| "nodeAt (IntElem i # pos) d =
     (case Array d of
        None \<Rightarrow> None
      | Some a \<Rightarrow> (case Updates a i of None \<Rightarrow> None | Some c \<Rightarrow> nodeAt pos c))"
| "nodeAt (StrElem k # pos) d =
     (case Object d of
        None \<Rightarrow> None
      | Some ob \<Rightarrow> (case Updates ob k of None \<Rightarrow> None | Some c \<Rightarrow> nodeAt pos c))"
| "nodeAt (OtherElem # pos) d = None"

text \<open>
  Two paths are consistent when, at the first position where they differ, both have an
  integer or both have a string; a list of paths is consistent when all its pairs are.
\<close>

fun sameType :: "pathElement \<Rightarrow> pathElement \<Rightarrow> bool" where
  "sameType (IntElem _) (IntElem _) = True"
| "sameType (StrElem _) (StrElem _) = True"
| "sameType OtherElem OtherElem = True"
| "sameType _ _ = False"

fun consistentPair :: "pathElement list \<Rightarrow> pathElement list \<Rightarrow> bool" where
  "consistentPair (x # xs) (y # ys) = (if x = y then consistentPair xs ys else sameType x y)"
| "consistentPair _ _ = True"

fun consistent :: "pathElement list list \<Rightarrow> bool" where
  "consistent [] = True"
| "consistent (p # ps) = (list_all (consistentPair p) ps \<and> consistent ps)"

text \<open>
  A node admits a path when walking the path from the node never meets a diff of the
  other sort: an object diff where the path has an integer, an array diff where it has a
  string. The walk ends where the tree does.
\<close>

fun admits :: "ValueDiff \<Rightarrow> pathElement list \<Rightarrow> bool" where
  "admits d [] = True"
| "admits d (IntElem i # rest) =
     (Object d = None \<and>
      (case Array d of
         None \<Rightarrow> True
       | Some a \<Rightarrow> (case Updates a i of None \<Rightarrow> True | Some c \<Rightarrow> admits c rest)))"
| "admits d (StrElem k # rest) =
     (Array d = None \<and>
      (case Object d of
         None \<Rightarrow> True
       | Some ob \<Rightarrow> (case Updates ob k of None \<Rightarrow> True | Some c \<Rightarrow> admits c rest)))"
| "admits d (OtherElem # rest) = True"

definition allExclusive :: "ValueDiff \<Rightarrow> bool" where
  "allExclusive d = (\<forall>pos n. nodeAt pos d = Some n \<longrightarrow> Array n = None \<or> Object n = None)"

section \<open>Evaluating the parser\<close>

lemmas parse_eval = parseDiffPath_def parseLoop.simps ParseInt_def isDigit_def digitsValue_def

lemma parse_mixed_path:
  "parseDiffPath ''foo[0][\"bar\"].baz''
     = Elements [StrElem ''foo'', IntElem 0, StrElem ''bar'', StrElem ''baz'']"
  by (simp add: parse_eval)

section \<open>Property lookup: opaque values and arrays\<close>

text \<open>
  Claim C7. For every key element and every opaque value (computed, output or secret),
  \<open>getProperty\<close> returns the value itself unchanged, whatever it wraps.
\<close>

theorem getProperty_opaque:
  "getProperty key (ComputedValue e) = ComputedValue e
   \<and> getProperty key (OutputValue e) = OutputValue e
   \<and> getProperty key (SecretValue e) = SecretValue e"
  by simp

theorem getProperty_opaque_witness:
  "getProperty (StrElem ''k'') (SecretValue (ObjectValue [''k'' \<mapsto> NumberValue 1]))
     = SecretValue (ObjectValue [''k'' \<mapsto> NumberValue 1])
   \<and> getProperty (IntElem 0) (ComputedValue (ArrayValue [NullValue]))
     = ComputedValue (ArrayValue [NullValue])"
  using getProperty_opaque [of "StrElem ''k''" "ObjectValue [''k'' \<mapsto> NumberValue 1]"]
    getProperty_opaque [of "IntElem 0" "ArrayValue [NullValue]"]
  by simp

text \<open>
  Claim C10. The parser accepts negative bracketed integers: \<open>[-1]\<close> parses to the integer
  element \<open>-1\<close> and \<open>[3]\<close> to the integer element \<open>3\<close>. On every array value, \<open>getProperty\<close>
  with a negative, an out-of-range or a non-integer element returns the null value, and
  with a non-negative integer element in range it returns the value at that index.
\<close>

theorem parse_index_and_lookup:
  "parseDiffPath ''[-1]'' = Elements [IntElem (- 1)]
   \<and> parseDiffPath ''[3]'' = Elements [IntElem 3]
   \<and> (i < 0 \<longrightarrow> getProperty (IntElem i) (ArrayValue vs) = NullValue)
   \<and> (j \<ge> int (length vs) \<longrightarrow> getProperty (IntElem j) (ArrayValue vs) = NullValue)
   \<and> getProperty (StrElem s) (ArrayValue vs) = NullValue
   \<and> getProperty OtherElem (ArrayValue vs) = NullValue
   \<and> (0 \<le> n \<and> n < int (length vs) \<longrightarrow> getProperty (IntElem n) (ArrayValue vs) = vs ! nat n)"
  by (simp add: parse_eval)

theorem parse_index_and_lookup_witness:
  "getProperty (IntElem (- 1)) (ArrayValue [NumberValue 10, NumberValue 20]) = NullValue
   \<and> getProperty (IntElem 2) (ArrayValue [NumberValue 10, NumberValue 20]) = NullValue
   \<and> getProperty (IntElem 1) (ArrayValue [NumberValue 10, NumberValue 20]) = NumberValue 20"
  using parse_index_and_lookup [of "- 1" "[NumberValue 10, NumberValue 20]" 2 _ 1]
  by simp

section \<open>Quoted keys and parse errors\<close>

text \<open>
  Claim C8. Parsing \<open>["a\"b"]\<close> succeeds and yields exactly one element, the string \<open>a"b\<close>.
  Inside a quoted key, a backslash followed by a quote adds a literal quote to the key;
  every other character that is not the closing quote is copied as it is (a backslash
  too, when no quote follows it).
\<close>

theorem parse_escaped_quote:
  "parseDiffPath (''[\"a'' @ [CHR 0x5C] @ ''\"b\"]'') = Elements [StrElem ''a\"b'']
   \<and> scanKey (CHR 0x5C # CHR 0x22 # cs) k = scanKey cs (k @ [CHR 0x22])
   \<and> (c \<noteq> CHR 0x22 \<and> (c = CHR 0x5C \<longrightarrow> (case cs' of [] \<Rightarrow> True | d # _ \<Rightarrow> d \<noteq> CHR 0x22))
        \<longrightarrow> scanKey (c # cs') k' = scanKey cs' (k' @ [c]))"
  by (auto simp: parse_eval split: list.splits)

theorem parse_escaped_quote_witness:
  "scanKey ''ab\"]'' [] = scanKey ''b\"]'' ''a''
   \<and> scanKey [CHR 0x5C, CHR ''n'', CHR 0x22] ''x''
     = scanKey [CHR ''n'', CHR 0x22] [CHR ''x'', CHR 0x5C]"
  using parse_escaped_quote [of _ _ "CHR ''a''" "''b\"]''" "[]"]
    parse_escaped_quote [of _ _ "CHR 0x5C" "[CHR ''n'', CHR 0x22]" "''x''"]
  by simp

text \<open>
  Claim C9. Parsing \<open>["abc\<close> fails with the missing-closing-quote error, and parsing \<open>[3\<close>
  fails with the missing-closing-bracket error of the array-index branch; each is an
  error value, not a path.
\<close>

theorem parse_unterminated:
  "parseDiffPath ''[\"abc'' = Err MissingClosingQuote
   \<and> parseDiffPath ''[3'' = Err MissingClosingBracketInArrayIndex"
  by (simp add: parse_eval)

theorem parse_unterminated_witness:
  "parseDiffPath ''[3'' \<noteq> Elements [IntElem 3]
   \<and> parseDiffPath ''[\"abc'' \<noteq> Elements [StrElem ''abc'']"
  using parse_unterminated by simp

section \<open>An opening bracket at the end of the input\<close>

text \<open>
  The parser stops with a panic only on an input whose last byte is \<open>[\<close>; on every other
  input it returns a path or an error.
\<close>

lemma scanKey_suffix: "scanKey s k = Some (key, r) \<Longrightarrow> \<exists>pre. s = pre @ r"
proof (induction s k rule: scanKey.induct)
  case (1 propertyKey)
  then show ?case by simp
next
  case (2 c cs propertyKey)
  show ?case
  proof (cases "c = CHR 0x22")
    case True
    with "2.prems" have "c # cs = [c] @ r" by simp
    then show ?thesis by blast
  next
    case False
    show ?thesis
    proof (cases "c = CHR 0x5C \<and> (case cs of [] \<Rightarrow> False | d # _ \<Rightarrow> d = CHR 0x22)")
      case True
      then obtain d ds where cs: "cs = d # ds" by (cases cs) auto
      from "2.IH"(1) [OF False True] "2.prems" False True
      obtain pre where "tl cs = pre @ r" by auto
      with cs have "c # cs = (c # d # pre) @ r" by simp
      then show ?thesis by blast
    next
      case esc: False
      from "2.IH"(2) [OF False esc] "2.prems" False esc
      obtain pre where "cs = pre @ r" by auto
      then have "c # cs = (c # pre) @ r" by simp
      then show ?thesis by blast
    qed
  qed
qed

lemma last_drop_nonempty: "drop n xs \<noteq> [] \<Longrightarrow> last (drop n xs) = last xs"
  by (simp add: last_drop)

lemma parseLoop_Panic:
  "parseLoop elements path = Panic f
    \<Longrightarrow> f = IndexOutOfRange \<and> path \<noteq> [] \<and> last path = CHR ''[''"
proof (induction "length path" arbitrary: elements path rule: less_induct)
  case less
  show ?case
  proof (cases path)
    case Nil
    with less.prems show ?thesis by (simp add: parseLoop.simps)
  next
    case (Cons c rest)
    show ?thesis
    proof (cases "c = CHR ''.''")
      case True
      with less.prems Cons have "parseLoop elements rest = Panic f"
        by (subst (asm) parseLoop.simps) simp
      from less.hyps [OF _ this] Cons show ?thesis by simp
    next
      case nodot: False
      show ?thesis
      proof (cases "c = CHR ''[''")
        case False
        with less.prems Cons nodot
        have p: "parseLoop (elements @ [StrElem (take (nameEnd path) path)]) (drop (nameEnd path) path)
            = Panic f"
          by (subst (asm) parseLoop.simps) (simp add: Let_def)
        from Cons nodot False have "0 < nameEnd path" by simp
        with Cons have "length (drop (nameEnd path) path) < length path" by simp
        from less.hyps [OF this p] show ?thesis
          using last_drop_nonempty [of "nameEnd path" path] by auto
      next
        case True
        show ?thesis
        proof (cases rest)
          case Nil
          with less.prems Cons True show ?thesis
            by (subst (asm) parseLoop.simps) simp
        next
          case rest: (Cons d after)
          show ?thesis
          proof (cases "d = CHR 0x22")
            case True
            with less.prems Cons \<open>c = CHR ''[''\<close> rest
            obtain key r' where s: "scanKey after [] = Some (key, CHR '']'' # r')"
              and p: "parseLoop (elements @ [StrElem key]) r' = Panic f"
              by (subst (asm) parseLoop.simps) (auto split: option.splits list.splits if_splits)
            from scanKey_suffix [OF s] obtain pre where pre: "after = pre @ CHR '']'' # r'" by blast
            with Cons rest have "length r' < length path" by simp
            from less.hyps [OF this p] pre Cons rest show ?thesis by simp
          next
            case False
            with less.prems Cons \<open>c = CHR ''[''\<close> rest
            obtain rb index where ix: "IndexRune path (CHR '']'') = Some rb"
              and p: "parseLoop (elements @ [IntElem index]) (drop (Suc rb) path) = Panic f"
              by (subst (asm) parseLoop.simps) (auto split: option.splits)
            from Cons have "length (drop (Suc rb) path) < length path" by simp
            from less.hyps [OF this p] show ?thesis
              using last_drop_nonempty [of "Suc rb" path] by auto
          qed
        qed
      qed
    qed
  qed
qed

lemma parseDiffPath_returns:
  assumes "path = [] \<or> last path \<noteq> CHR ''[''"
  shows "(\<exists>es. parseDiffPath path = Elements es) \<or> (\<exists>e. parseDiffPath path = Err e)"
proof (cases "parseDiffPath path")
  case (Panic f)
  with parseLoop_Panic [of "[]" path f] assms show ?thesis
    by (auto simp: parseDiffPath_def)
qed auto

text \<open>
  Claim C6. The parser is meant to return a path or an error for every string, a string
  that ends right after an opening \<open>[\<close> included. On \<open>[\<close> the source reads \<open>path[1]\<close> of a
  one-byte string, which is a run-time panic and neither a path nor an error.
\<close>

theorem parse_open_bracket_at_end:
  "parseDiffPath ''['' = Panic IndexOutOfRange"
  by (simp add: parse_eval)

theorem parse_open_bracket_at_end_witness:
  "parseDiffPath ''['' \<noteq> Err MissingClosingBracketInArrayIndex
   \<and> (\<forall>es. parseDiffPath ''['' \<noteq> Elements es)"
  using parse_open_bracket_at_end by simp

section \<open>Inserting one diff\<close>

lemmas diff_eval = zeroValueDiff_def setObject_def setArray_def setAdds_def setDeletes_def
  setUpdates_def ensureObject_def ensureArray_def getUpdate_def emptyDiff_def

text \<open>
  The two contract failures of \<open>addDiff\<close> that do not depend on the kind: an empty path,
  and a first element that is neither an integer nor a string.
\<close>

lemma addDiff_contract_failures:
  "addDiff [] kind parent oldParent newParent = Inl RequireFailed
   \<and> addDiff (OtherElem # rest) kind parent oldParent newParent = Inl UnexpectedPathElementType"
  by simp





section \<open>Translating an empty record set\<close>

theorem translate_no_records_counterexample:
  "translateDetailedDiff
       \<lparr>Old_state = \<lparr>Inputs = Map.empty, Outputs = Map.empty\<rparr>,
        New_state = \<lparr>Inputs = Map.empty, Outputs = Map.empty\<rparr>,
        DetailedDiff = Some []\<rparr>
     \<noteq> Inr (Some emptyDiff)"
  by (simp add: translateDetailedDiff_def zeroValueDiff_def)

text \<open>
  Claim C4, as amended. When the record set is present but holds no record,
  \<open>translateDetailedDiff\<close> returns the Object field of the untouched zero-valued root, which
  is the nil pointer: the result is absent, not an allocated empty object diff.
\<close>

theorem translate_no_records:
  "translateDetailedDiff (step\<lparr>DetailedDiff := Some []\<rparr>) = Inr None"
  by (simp add: translateDetailedDiff_def zeroValueDiff_def)

theorem translate_no_records_witness:
  "translateDetailedDiff
       \<lparr>Old_state = \<lparr>Inputs = Map.empty, Outputs = Map.empty\<rparr>,
        New_state = \<lparr>Inputs = [''x'' \<mapsto> NumberValue 1], Outputs = Map.empty\<rparr>,
        DetailedDiff = Some []\<rparr>
     = Inr None"
  using translate_no_records
    [of "\<lparr>Old_state = \<lparr>Inputs = Map.empty, Outputs = Map.empty\<rparr>,
          New_state = \<lparr>Inputs = [''x'' \<mapsto> NumberValue 1], Outputs = Map.empty\<rparr>,
          DetailedDiff = None\<rparr>"]
  by simp

section \<open>Parsing complete paths\<close>

















lemma parse_only_dots: "parseDiffPath ''.'' = Elements []"
  by (simp add: parse_eval)

lemma parse_empty_index: "completePath ''[]'' \<and> parseDiffPath ''[]'' = Err InvalidArrayIndex"
proof -
  have "wellFormed (ArrayIndex []) \<and> list_all wellFormed [] \<and> ''[]'' = pathText (ArrayIndex []) []"
    by (simp add: pathText_def)
  then have "completePath ''[]''" unfolding completePath_def by blast
  then show ?thesis by (simp add: parse_eval)
qed

lemma parse_key_ending_in_backslash:
  "completePath (''[\"a'' @ [CHR 0x5C] @ ''\"]'')
   \<and> parseDiffPath (''[\"a'' @ [CHR 0x5C] @ ''\"]'') = Err MissingClosingQuote"
proof -
  have "quotedItems [CHR ''a'', CHR 0x5C]"
    by (intro quotedItems.intros) simp_all
  then have "wellFormed (QuotedPropertyName [CHR ''a'', CHR 0x5C]) \<and> list_all wellFormed []
      \<and> ''[\"a'' @ [CHR 0x5C] @ ''\"]'' = pathText (QuotedPropertyName [CHR ''a'', CHR 0x5C]) []"
    by (simp add: pathText_def)
  then have "completePath (''[\"a'' @ [CHR 0x5C] @ ''\"]'')" unfolding completePath_def by blast
  then show ?thesis by (simp add: parse_eval)
qed




section \<open>Array diff and object diff on one node\<close>

text \<open>The loop of the driver makes exactly the calls that \<open>addDiffs\<close> folds.\<close>

lemma translateLoop_addDiffs:
  "translateLoop step entries diff = Inr d
    \<Longrightarrow> \<exists>records. map (\<lambda>r. Elements (fst r)) records = map (\<lambda>e. parseDiffPath (fst e)) entries
          \<and> addDiffs records diff = Inr d"
proof (induction entries arbitrary: diff)
  case Nil
  then have "map (\<lambda>r. Elements (fst r)) [] = map (\<lambda>e. parseDiffPath (fst e)) []
      \<and> addDiffs [] diff = Inr d" by simp
  then show ?case by blast
next
  case (Cons entry entries)
  obtain path pdiff where entry: "entry = (path, pdiff)" by (cases entry) auto
  let ?olds = "if InputDiff pdiff then ObjectValue (Inputs (Old_state step))
               else ObjectValue (Outputs (Old_state step))"
  let ?news = "ObjectValue (Inputs (New_state step))"
  from Cons.prems obtain elements diff' where
    p: "parseDiffPath path = Elements elements"
    and a: "addDiff elements (Kind pdiff) diff ?olds ?news = Inr diff'"
    and l: "translateLoop step entries diff' = Inr d"
    by (auto simp: entry Let_def split: parseResult.splits sum.splits)
  from Cons.IH [OF l] obtain records where
    rs: "map (\<lambda>r. Elements (fst r)) records = map (\<lambda>e. parseDiffPath (fst e)) entries"
    "addDiffs records diff' = Inr d" by blast
  let ?r = "(elements, Kind pdiff, ?olds, ?news)"
  from p a rs have "map (\<lambda>r. Elements (fst r)) (?r # records)
      = map (\<lambda>e. parseDiffPath (fst e)) (entry # entries)
    \<and> addDiffs (?r # records) diff = Inr d"
    by (simp add: entry)
  then show ?case by blast
qed

text \<open>
  A property that is an array on the old side and an object on the new side, with one
  record below it through an index and one through a key: the node for the property gets
  an array diff and an object diff.
\<close>

theorem addDiffs_array_and_object_counterexample:
  "addDiffs
      [([StrElem ''a'', IntElem 0], DiffDelete,
        ObjectValue [''a'' \<mapsto> ArrayValue [NumberValue 1]],
        ObjectValue [''a'' \<mapsto> ObjectValue [''b'' \<mapsto> NumberValue 2]]),
       ([StrElem ''a'', StrElem ''b''], DiffAdd,
        ObjectValue [''a'' \<mapsto> ArrayValue [NumberValue 1]],
        ObjectValue [''a'' \<mapsto> ObjectValue [''b'' \<mapsto> NumberValue 2]])]
      zeroValueDiff
    = Inr (ValueDiff NullValue NullValue None
        (Some (Diff Map.empty Map.empty Map.empty
           [''a'' \<mapsto> ValueDiff NullValue NullValue
              (Some (Diff Map.empty [0 \<mapsto> NumberValue 1] Map.empty Map.empty))
              (Some (Diff [''b'' \<mapsto> NumberValue 2] Map.empty Map.empty Map.empty))])))
   \<and> nodeAt [StrElem ''a'']
        (ValueDiff NullValue NullValue None
          (Some (Diff Map.empty Map.empty Map.empty
             [''a'' \<mapsto> ValueDiff NullValue NullValue
                (Some (Diff Map.empty [0 \<mapsto> NumberValue 1] Map.empty Map.empty))
                (Some (Diff [''b'' \<mapsto> NumberValue 2] Map.empty Map.empty Map.empty))])))
      = Some (ValueDiff NullValue NullValue
          (Some (Diff Map.empty [0 \<mapsto> NumberValue 1] Map.empty Map.empty))
          (Some (Diff [''b'' \<mapsto> NumberValue 2] Map.empty Map.empty Map.empty)))
   \<and> Array (ValueDiff NullValue NullValue
          (Some (Diff Map.empty [0 \<mapsto> NumberValue 1] Map.empty Map.empty))
          (Some (Diff [''b'' \<mapsto> NumberValue 2] Map.empty Map.empty Map.empty))) \<noteq> None
   \<and> Object (ValueDiff NullValue NullValue
          (Some (Diff Map.empty [0 \<mapsto> NumberValue 1] Map.empty Map.empty))
          (Some (Diff [''b'' \<mapsto> NumberValue 2] Map.empty Map.empty Map.empty))) \<noteq> None"
  by (simp add: diff_eval)

lemma translate_array_and_object:
  "translateDetailedDiff
      \<lparr>Old_state = \<lparr>Inputs = Map.empty, Outputs = [''a'' \<mapsto> ArrayValue [NumberValue 1]]\<rparr>,
       New_state = \<lparr>Inputs = [''a'' \<mapsto> ObjectValue [''b'' \<mapsto> NumberValue 2]],
                    Outputs = Map.empty\<rparr>,
       DetailedDiff = Some [(''a[0]'', \<lparr>Kind = DiffDelete, InputDiff = False\<rparr>),
                            (''a.b'', \<lparr>Kind = DiffAdd, InputDiff = False\<rparr>)]\<rparr>
    = Inr (Some (Diff Map.empty Map.empty Map.empty
           [''a'' \<mapsto> ValueDiff NullValue NullValue
              (Some (Diff Map.empty [0 \<mapsto> NumberValue 1] Map.empty Map.empty))
              (Some (Diff [''b'' \<mapsto> NumberValue 2] Map.empty Map.empty Map.empty))]))"
  by (simp add: translateDetailedDiff_def parse_eval diff_eval)

subsection \<open>Consistent paths keep the two diffs apart\<close>

lemma admits_leaf: "admits (ValueDiff ol nw None None) p"
  by (cases "(ValueDiff ol nw None None, p)" rule: admits.cases) auto

lemma nodeAt_leaf: "nodeAt pos (ValueDiff ol nw None None) = Some m \<Longrightarrow> m = ValueDiff ol nw None None"
  by (cases "(pos, ValueDiff ol nw None None)" rule: nodeAt.cases) auto

lemma addDiff_int_shape:
  assumes "addDiff (IntElem i # rest) kind d ol nw = Inr d'"
  shows "Object d' = Object d \<and> (\<exists>a'. Array d' = Some a'
    \<and> (\<forall>j. j \<noteq> i \<longrightarrow> Updates a' j = Updates (ensureArray d) j)
    \<and> (Updates a' i = Updates (ensureArray d) i
       \<or> (\<exists>x y. Updates a' i = Some (ValueDiff x y None None))
       \<or> (\<exists>x y c. addDiff rest kind (getUpdate (ensureArray d) i) x y = Inr c
            \<and> Updates a' i = Some c)))"
  using assms
  by (auto simp: Let_def setArray_def setAdds_def setDeletes_def setUpdates_def
      split: if_splits DiffKind.splits sum.splits)

lemma addDiff_str_shape:
  assumes "addDiff (StrElem k # rest) kind d ol nw = Inr d'"
  shows "Array d' = Array d \<and> (\<exists>a'. Object d' = Some a'
    \<and> (\<forall>j. j \<noteq> k \<longrightarrow> Updates a' j = Updates (ensureObject d) j)
    \<and> (Updates a' k = Updates (ensureObject d) k
       \<or> (\<exists>x y. Updates a' k = Some (ValueDiff x y None None))
       \<or> (\<exists>x y c. addDiff rest kind (getUpdate (ensureObject d) k) x y = Inr c
            \<and> Updates a' k = Some c)))"
  using assms
  by (auto simp: Let_def setObject_def setAdds_def setDeletes_def setUpdates_def
      split: if_splits DiffKind.splits sum.splits)

lemma admits_zero: "admits zeroValueDiff p"
  unfolding zeroValueDiff_def by (rule admits_leaf)

lemma Updates_ensureArray:
  "Updates (ensureArray d) i = (case Array d of None \<Rightarrow> None | Some a \<Rightarrow> Updates a i)"
  by (simp add: ensureArray_def emptyDiff_def split: option.splits)

lemma Updates_ensureObject:
  "Updates (ensureObject d) k = (case Object d of None \<Rightarrow> None | Some a \<Rightarrow> Updates a k)"
  by (simp add: ensureObject_def emptyDiff_def split: option.splits)

lemma admits_getUpdate_int:
  "admits d (IntElem i # qs) \<Longrightarrow> admits (getUpdate (ensureArray d) i) qs"
  by (auto simp: getUpdate_def Updates_ensureArray admits_zero split: option.splits)

lemma admits_getUpdate_str:
  "admits d (StrElem k # qs) \<Longrightarrow> admits (getUpdate (ensureObject d) k) qs"
  by (auto simp: getUpdate_def Updates_ensureObject admits_zero split: option.splits)

lemma addDiff_admits:
  "admits d q \<Longrightarrow> consistentPair p q \<Longrightarrow> addDiff p kind d ol nw = Inr d' \<Longrightarrow> admits d' q"
proof (induction p arbitrary: q d d' ol nw)
  case Nil
  then show ?case by simp
next
  case (Cons e rest)
  show ?case
  proof (cases q)
    case Nil
    then show ?thesis by simp
  next
    case q: (Cons f qs)
    show ?thesis
    proof (cases e)
      case OtherElem
      with Cons.prems(3) show ?thesis by simp
    next
      case (IntElem i)
      from Cons.prems(2) q IntElem obtain j where f: "f = IntElem j"
        by (cases f) (auto split: if_splits)
      from Cons.prems(3) [unfolded IntElem] have sh:
        "Object d' = Object d \<and> (\<exists>a'. Array d' = Some a'
          \<and> (\<forall>j. j \<noteq> i \<longrightarrow> Updates a' j = Updates (ensureArray d) j)
          \<and> (Updates a' i = Updates (ensureArray d) i
             \<or> (\<exists>x y. Updates a' i = Some (ValueDiff x y None None))
             \<or> (\<exists>x y c. addDiff rest kind (getUpdate (ensureArray d) i) x y = Inr c
                  \<and> Updates a' i = Some c)))"
        by (rule addDiff_int_shape)
      then obtain a' where a': "Object d' = Object d" "Array d' = Some a'"
        "\<forall>j. j \<noteq> i \<longrightarrow> Updates a' j = Updates (ensureArray d) j"
        "Updates a' i = Updates (ensureArray d) i
           \<or> (\<exists>x y. Updates a' i = Some (ValueDiff x y None None))
           \<or> (\<exists>x y c. addDiff rest kind (getUpdate (ensureArray d) i) x y = Inr c
                \<and> Updates a' i = Some c)"
        by blast
      from Cons.prems(1) have adm: "admits d (IntElem j # qs)" by (simp add: q f)
      then have obj: "Object d' = None" using a'(1) by simp
      have "case Updates a' j of None \<Rightarrow> True | Some c \<Rightarrow> admits c qs"
      proof (cases "j = i")
        case False
        with a'(3) have "Updates a' j = Updates (ensureArray d) j" by simp
        with adm show ?thesis
          by (auto simp: Updates_ensureArray split: option.splits)
      next
        case True
        from a'(4) consider
          (same) "Updates a' i = Updates (ensureArray d) i"
          | (leaf) x y where "Updates a' i = Some (ValueDiff x y None None)"
          | (rec) x y c where "addDiff rest kind (getUpdate (ensureArray d) i) x y = Inr c"
            "Updates a' i = Some c"
          by blast
        then show ?thesis
        proof cases
          case same
          with adm True show ?thesis
            by (auto simp: Updates_ensureArray split: option.splits)
        next
          case leaf
          with True show ?thesis by (simp add: admits_leaf)
        next
          case rec
          from Cons.prems(2) True have "consistentPair rest qs" by (simp add: q f IntElem)
          from Cons.IH [OF admits_getUpdate_int this rec(1)] adm True
          have "admits c qs" by simp
          with rec(2) True show ?thesis by simp
        qed
      qed
      with obj a'(2) show ?thesis by (simp add: q f)
    next
      case (StrElem k)
      from Cons.prems(2) q StrElem obtain j where f: "f = StrElem j"
        by (cases f) (auto split: if_splits)
      from Cons.prems(3) [unfolded StrElem] have sh:
        "Array d' = Array d \<and> (\<exists>a'. Object d' = Some a'
          \<and> (\<forall>j. j \<noteq> k \<longrightarrow> Updates a' j = Updates (ensureObject d) j)
          \<and> (Updates a' k = Updates (ensureObject d) k
             \<or> (\<exists>x y. Updates a' k = Some (ValueDiff x y None None))
             \<or> (\<exists>x y c. addDiff rest kind (getUpdate (ensureObject d) k) x y = Inr c
                  \<and> Updates a' k = Some c)))"
        by (rule addDiff_str_shape)
      then obtain a' where a': "Array d' = Array d" "Object d' = Some a'"
        "\<forall>j. j \<noteq> k \<longrightarrow> Updates a' j = Updates (ensureObject d) j"
        "Updates a' k = Updates (ensureObject d) k
           \<or> (\<exists>x y. Updates a' k = Some (ValueDiff x y None None))
           \<or> (\<exists>x y c. addDiff rest kind (getUpdate (ensureObject d) k) x y = Inr c
                \<and> Updates a' k = Some c)"
        by blast
      from Cons.prems(1) have adm: "admits d (StrElem j # qs)" by (simp add: q f)
      then have arr: "Array d' = None" using a'(1) by simp
      have "case Updates a' j of None \<Rightarrow> True | Some c \<Rightarrow> admits c qs"
      proof (cases "j = k")
        case False
        with a'(3) have "Updates a' j = Updates (ensureObject d) j" by simp
        with adm show ?thesis
          by (auto simp: Updates_ensureObject split: option.splits)
      next
        case True
        from a'(4) consider
          (same) "Updates a' k = Updates (ensureObject d) k"
          | (leaf) x y where "Updates a' k = Some (ValueDiff x y None None)"
          | (rec) x y c where "addDiff rest kind (getUpdate (ensureObject d) k) x y = Inr c"
            "Updates a' k = Some c"
          by blast
        then show ?thesis
        proof cases
          case same
          with adm True show ?thesis
            by (auto simp: Updates_ensureObject split: option.splits)
        next
          case leaf
          with True show ?thesis by (simp add: admits_leaf)
        next
          case rec
          from Cons.prems(2) True have "consistentPair rest qs" by (simp add: q f StrElem)
          from Cons.IH [OF admits_getUpdate_str this rec(1)] adm True
          have "admits c qs" by simp
          with rec(2) True show ?thesis by simp
        qed
      qed
      with arr a'(2) show ?thesis by (simp add: q f)
    qed
  qed
qed

lemma allExclusiveD:
  "allExclusive d \<Longrightarrow> nodeAt pos d = Some n \<Longrightarrow> Array n = None \<or> Object n = None"
  by (simp add: allExclusive_def)

lemma allExclusive_leaf: "allExclusive (ValueDiff x y None None)"
  unfolding allExclusive_def using nodeAt_leaf by fastforce

lemma allExclusive_getUpdate_int:
  assumes "allExclusive d"
  shows "allExclusive (getUpdate (ensureArray d) i)"
proof (cases "Updates (ensureArray d) i")
  case None
  then show ?thesis by (simp add: getUpdate_def zeroValueDiff_def allExclusive_leaf)
next
  case (Some c)
  then have "\<And>pos. nodeAt (IntElem i # pos) d = nodeAt pos c"
    by (auto simp: Updates_ensureArray split: option.splits)
  with assms Some show ?thesis
    unfolding allExclusive_def getUpdate_def by (metis option.simps(5))
qed

lemma allExclusive_getUpdate_str:
  assumes "allExclusive d"
  shows "allExclusive (getUpdate (ensureObject d) k)"
proof (cases "Updates (ensureObject d) k")
  case None
  then show ?thesis by (simp add: getUpdate_def zeroValueDiff_def allExclusive_leaf)
next
  case (Some c)
  then have "\<And>pos. nodeAt (StrElem k # pos) d = nodeAt pos c"
    by (auto simp: Updates_ensureObject split: option.splits)
  with assms Some show ?thesis
    unfolding allExclusive_def getUpdate_def by (metis option.simps(5))
qed

lemma addDiff_exclusive:
  "allExclusive d \<Longrightarrow> admits d p \<Longrightarrow> addDiff p kind d ol nw = Inr d' \<Longrightarrow> allExclusive d'"
proof (induction p arbitrary: d d' ol nw)
  case Nil
  then show ?case by simp
next
  case (Cons e rest)
  show ?case
  proof (cases e)
    case OtherElem
    with Cons.prems(3) show ?thesis by simp
  next
    case (IntElem i)
    from addDiff_int_shape [OF Cons.prems(3) [unfolded IntElem]]
    obtain a' where a': "Object d' = Object d" "Array d' = Some a'"
      "\<forall>j. j \<noteq> i \<longrightarrow> Updates a' j = Updates (ensureArray d) j"
      "Updates a' i = Updates (ensureArray d) i
         \<or> (\<exists>x y. Updates a' i = Some (ValueDiff x y None None))
         \<or> (\<exists>x y c. addDiff rest kind (getUpdate (ensureArray d) i) x y = Inr c
              \<and> Updates a' i = Some c)"
      by blast
    from Cons.prems(2) have adm: "admits d (IntElem i # rest)" by (simp add: IntElem)
    then have obj: "Object d' = None" using a'(1) by simp
    have new_child: "allExclusive c"
      if "addDiff rest kind (getUpdate (ensureArray d) i) x y = Inr c" for x y c
      using Cons.IH [OF allExclusive_getUpdate_int [OF Cons.prems(1)]
          admits_getUpdate_int [OF adm] that] .
    have old_child: "allExclusive c" if "Updates (ensureArray d) j = Some c" for j c
    proof -
      from that have "\<And>pos. nodeAt (IntElem j # pos) d = nodeAt pos c"
        by (auto simp: Updates_ensureArray split: option.splits)
      with Cons.prems(1) show ?thesis unfolding allExclusive_def by metis
    qed
    have child: "allExclusive c" if "Updates a' j = Some c" for j c
    proof (cases "j = i")
      case False
      with a'(3) that show ?thesis using old_child by simp
    next
      case True
      with a'(4) that show ?thesis
        using old_child new_child allExclusive_leaf by auto
    qed
    show ?thesis
      unfolding allExclusive_def
    proof (intro allI impI)
      fix pos n
      assume n: "nodeAt pos d' = Some n"
      show "Array n = None \<or> Object n = None"
      proof (cases "(pos, d')" rule: nodeAt.cases)
        case (1 dd)
        with n obj show ?thesis by simp
      next
        case (2 j pos' dd)
        with n a'(2) obtain c where c: "Updates a' j = Some c" "nodeAt pos' c = Some n"
          by (auto split: option.splits)
        from allExclusiveD [OF child [OF c(1)] c(2)] show ?thesis .
      next
        case (3 k pos' dd)
        with n obj show ?thesis by simp
      next
        case (4 pos' dd)
        with n show ?thesis by simp
      qed
    qed
  next
    case (StrElem k)
    from addDiff_str_shape [OF Cons.prems(3) [unfolded StrElem]]
    obtain a' where a': "Array d' = Array d" "Object d' = Some a'"
      "\<forall>j. j \<noteq> k \<longrightarrow> Updates a' j = Updates (ensureObject d) j"
      "Updates a' k = Updates (ensureObject d) k
         \<or> (\<exists>x y. Updates a' k = Some (ValueDiff x y None None))
         \<or> (\<exists>x y c. addDiff rest kind (getUpdate (ensureObject d) k) x y = Inr c
              \<and> Updates a' k = Some c)"
      by blast
    from Cons.prems(2) have adm: "admits d (StrElem k # rest)" by (simp add: StrElem)
    then have arr: "Array d' = None" using a'(1) by simp
    have new_child: "allExclusive c"
      if "addDiff rest kind (getUpdate (ensureObject d) k) x y = Inr c" for x y c
      using Cons.IH [OF allExclusive_getUpdate_str [OF Cons.prems(1)]
          admits_getUpdate_str [OF adm] that] .
    have old_child: "allExclusive c" if "Updates (ensureObject d) j = Some c" for j c
    proof -
      from that have "\<And>pos. nodeAt (StrElem j # pos) d = nodeAt pos c"
        by (auto simp: Updates_ensureObject split: option.splits)
      with Cons.prems(1) show ?thesis unfolding allExclusive_def by metis
    qed
    have child: "allExclusive c" if "Updates a' j = Some c" for j c
    proof (cases "j = k")
      case False
      with a'(3) that show ?thesis using old_child by simp
    next
      case True
      with a'(4) that show ?thesis
        using old_child new_child allExclusive_leaf by auto
    qed
    show ?thesis
      unfolding allExclusive_def
    proof (intro allI impI)
      fix pos n
      assume n: "nodeAt pos d' = Some n"
      show "Array n = None \<or> Object n = None"
      proof (cases "(pos, d')" rule: nodeAt.cases)
        case (1 dd)
        with n arr show ?thesis by simp
      next
        case (2 j pos' dd)
        with n arr show ?thesis by simp
      next
        case (3 j pos' dd)
        with n a'(2) obtain c where c: "Updates a' j = Some c" "nodeAt pos' c = Some n"
          by (auto split: option.splits)
        from allExclusiveD [OF child [OF c(1)] c(2)] show ?thesis .
      next
        case (4 pos' dd)
        with n show ?thesis by simp
      qed
    qed
  qed
qed

lemma addDiffs_exclusive:
  "allExclusive d \<Longrightarrow> list_all (admits d) (map fst records) \<Longrightarrow> consistent (map fst records)
    \<Longrightarrow> addDiffs records d = Inr d' \<Longrightarrow> allExclusive d'"
proof (induction records arbitrary: d)
  case Nil
  then show ?case by simp
next
  case (Cons r records)
  obtain p kind ol nw where r: "r = (p, kind, ol, nw)" by (cases r) auto
  from Cons.prems(4) obtain d1 where d1: "addDiff p kind d ol nw = Inr d1"
    and rest: "addDiffs records d1 = Inr d'"
    by (auto simp: r split: sum.splits)
  from Cons.prems(2) have "admits d p" by (simp add: r)
  with Cons.prems(1) have ex1: "allExclusive d1" using d1 by (rule addDiff_exclusive)
  from Cons.prems(2,3) have "list_all (admits d1) (map fst records)"
    using addDiff_admits [OF _ _ d1] by (auto simp: r list_all_iff)
  moreover from Cons.prems(3) have "consistent (map fst records)" by (simp add: r)
  ultimately show ?case using Cons.IH [OF ex1 _ _ rest] by blast
qed

text \<open>
  Claim C3, as amended. For every list of records folded into a fresh accumulator by
  \<open>addDiff\<close>, in which no two paths agree up to some position and continue there with an
  integer index in one and a string key in the other, every node of the resulting tree
  has at most one of array diff and object diff.
\<close>

theorem addDiffs_consistent_paths:
  assumes "consistent (map fst records)"
    and "addDiffs records zeroValueDiff = Inr d"
    and "nodeAt pos d = Some n"
  shows "Array n = None \<or> Object n = None"
proof -
  have "allExclusive zeroValueDiff"
    unfolding zeroValueDiff_def by (rule allExclusive_leaf)
  moreover have "list_all (admits zeroValueDiff) (map fst records)"
    by (simp add: list_all_iff admits_zero)
  ultimately have "allExclusive d"
    using assms(1,2) by (rule addDiffs_exclusive)
  then show ?thesis using assms(3) by (rule allExclusiveD)
qed

theorem addDiffs_consistent_paths_witness:
  "consistent (map fst
      [([StrElem ''a'', StrElem ''b''], DiffUpdate,
        ObjectValue [''a'' \<mapsto> ObjectValue [''b'' \<mapsto> NumberValue 1, ''c'' \<mapsto> NumberValue 1]],
        ObjectValue [''a'' \<mapsto> ObjectValue [''b'' \<mapsto> NumberValue 2]]),
       ([StrElem ''a'', StrElem ''c''], DiffDelete,
        ObjectValue [''a'' \<mapsto> ObjectValue [''b'' \<mapsto> NumberValue 1, ''c'' \<mapsto> NumberValue 1]],
        ObjectValue [''a'' \<mapsto> ObjectValue [''b'' \<mapsto> NumberValue 2]])])
   \<and> addDiffs
      [([StrElem ''a'', StrElem ''b''], DiffUpdate,
        ObjectValue [''a'' \<mapsto> ObjectValue [''b'' \<mapsto> NumberValue 1, ''c'' \<mapsto> NumberValue 1]],
        ObjectValue [''a'' \<mapsto> ObjectValue [''b'' \<mapsto> NumberValue 2]]),
       ([StrElem ''a'', StrElem ''c''], DiffDelete,
        ObjectValue [''a'' \<mapsto> ObjectValue [''b'' \<mapsto> NumberValue 1, ''c'' \<mapsto> NumberValue 1]],
        ObjectValue [''a'' \<mapsto> ObjectValue [''b'' \<mapsto> NumberValue 2]])]
      zeroValueDiff
    = Inr (ValueDiff NullValue NullValue None
        (Some (Diff Map.empty Map.empty Map.empty
           [''a'' \<mapsto> ValueDiff NullValue NullValue None
              (Some (Diff Map.empty [''c'' \<mapsto> NumberValue 1] Map.empty
                 [''b'' \<mapsto> ValueDiff (NumberValue 1) (NumberValue 2) None None]))])))
   \<and> nodeAt [StrElem ''a'']
        (ValueDiff NullValue NullValue None
          (Some (Diff Map.empty Map.empty Map.empty
             [''a'' \<mapsto> ValueDiff NullValue NullValue None
                (Some (Diff Map.empty [''c'' \<mapsto> NumberValue 1] Map.empty
                   [''b'' \<mapsto> ValueDiff (NumberValue 1) (NumberValue 2) None None]))])))
      = Some (ValueDiff NullValue NullValue None
          (Some (Diff Map.empty [''c'' \<mapsto> NumberValue 1] Map.empty
             [''b'' \<mapsto> ValueDiff (NumberValue 1) (NumberValue 2) None None])))
   \<and> (Array (ValueDiff NullValue NullValue None
          (Some (Diff Map.empty [''c'' \<mapsto> NumberValue 1] Map.empty
             [''b'' \<mapsto> ValueDiff (NumberValue 1) (NumberValue 2) None None]))) = None
      \<or> Object (ValueDiff NullValue NullValue None
          (Some (Diff Map.empty [''c'' \<mapsto> NumberValue 1] Map.empty
             [''b'' \<mapsto> ValueDiff (NumberValue 1) (NumberValue 2) None None]))) = None)"
proof -
  let ?old = "ObjectValue [''a'' \<mapsto> ObjectValue [''b'' \<mapsto> NumberValue 1, ''c'' \<mapsto> NumberValue 1]]"
  let ?new = "ObjectValue [''a'' \<mapsto> ObjectValue [''b'' \<mapsto> NumberValue 2]]"
  let ?records = "[([StrElem ''a'', StrElem ''b''], DiffUpdate, ?old, ?new),
    ([StrElem ''a'', StrElem ''c''], DiffDelete, ?old, ?new)]"
  let ?n = "ValueDiff NullValue NullValue None
    (Some (Diff Map.empty [''c'' \<mapsto> NumberValue 1] Map.empty
       [''b'' \<mapsto> ValueDiff (NumberValue 1) (NumberValue 2) None None]))"
  let ?d = "ValueDiff NullValue NullValue None
    (Some (Diff Map.empty Map.empty Map.empty [''a'' \<mapsto> ?n]))"
  have c: "consistent (map fst ?records)" by simp
  have r: "addDiffs ?records zeroValueDiff = Inr ?d" by (simp add: diff_eval)
  have n: "nodeAt [StrElem ''a''] ?d = Some ?n" by simp
  from addDiffs_consistent_paths [OF c r n] c r n show ?thesis by blast
qed

end
